theory Spec2Isabelle
  imports Main
begin

section \<open>JavaScript values\<close>

text \<open>
  A JavaScript string is a sequence of UTF-16 code units. The literals of the source are
  ASCII apart from three emoji, which are written as their code units.
\<close>

type_synonym js_string = "nat list"

definition utf16 :: "string \<Rightarrow> js_string" where
  "utf16 s = map of_char s"

text \<open>
  The value a response body parses to. Numbers are only ever tested for being zero, so
  an integer stands for the double. An object lists each of its keys once, as
  \<open>JSON.parse\<close> leaves it.
\<close>

datatype json =
    JNull
  | JBool bool
  | JNum int
  | JStr js_string
  | JArr "json list"
  | JObj "(js_string \<times> json) list"

text \<open>A thrown value: an \<open>Error\<close> object, of which the code reads only \<open>message\<close>.\<close>

datatype js_error = JsError js_string

fun message :: "js_error \<Rightarrow> js_string" where
  "message (JsError m) = m"

text \<open>Truthiness, as \<open>||\<close>, \<open>&&\<close> and \<open>if\<close> test it.\<close>

fun truthy :: "json \<Rightarrow> bool" where
  "truthy JNull = False"
| "truthy (JBool b) = b"
| "truthy (JNum n) = (n \<noteq> 0)"
| "truthy (JStr s) = (s \<noteq> [])"
| "truthy (JArr xs) = True"
| "truthy (JObj kvs) = True"

text \<open>\<open>a || b\<close>, where \<open>a\<close> may be \<open>undefined\<close> (\<open>None\<close>).\<close>

fun js_or :: "json option \<Rightarrow> json \<Rightarrow> json" where
  "js_or None b = b"
| "js_or (Some a) b = (if truthy a then a else b)"

text \<open>
  \<open>data.response\<close>: reading a property of \<open>null\<close> throws a TypeError; an object
  gives the field or \<open>undefined\<close>; a boolean, number, string or array has no property of
  that name.
\<close>

fun get_response :: "json \<Rightarrow> js_error + json option" where
  "get_response JNull =
     Inl (JsError (utf16 ''Cannot read properties of null (reading 'response')''))"
| "get_response (JObj kvs) = Inr (map_of kvs (utf16 ''response''))"
| "get_response (JBool b) = Inr None"
| "get_response (JNum n) = Inr None"
| "get_response (JStr s) = Inr None"
| "get_response (JArr xs) = Inr None"

text \<open>
  \<open>String.prototype.trim\<close> strips the code units of WhiteSpace and LineTerminator
  from both ends.
\<close>

definition js_whitespace :: "nat \<Rightarrow> bool" where
  "js_whitespace c \<longleftrightarrow>
     c \<in> {0x9, 0xA, 0xB, 0xC, 0xD, 0x20, 0xA0, 0x1680, 0x2028, 0x2029, 0x202F, 0x205F,
          0x3000, 0xFEFF} \<or> (0x2000 \<le> c \<and> c \<le> 0x200A)"

definition trim :: "js_string \<Rightarrow> js_string" where
  "trim s = rev (dropWhile js_whitespace (rev (dropWhile js_whitespace s)))"

section \<open>The API service\<close>

text \<open>
  What \<open>fetch\<close> gives one request: the promise rejects, or it resolves to a response
  with its \<open>ok\<close> flag and a body that \<open>response.json()\<close> either fails to parse or
  parses to a value.
\<close>

datatype http_reply =
    Rejected js_error
  | Response bool "js_error + json"

text \<open>
  Each operation is its \<open>try\<close> block, which may throw (\<open>Inl\<close>), followed by its
  \<open>catch\<close> handler. The result of the operation is again a sum: \<open>Inl\<close> would be a
  rejection reaching the caller. Logging with \<open>console.error\<close> changes nothing modelled.
\<close>

definition fetchUpcomingResults_try :: "http_reply \<Rightarrow> js_error + json" where
  "fetchUpcomingResults_try reply =
     (case reply of
        Rejected e \<Rightarrow> Inl e
      | Response ok body \<Rightarrow>
          if \<not> ok then Inl (JsError (utf16 ''Failed to fetch upcoming results''))
          else (case body of
                  Inl e \<Rightarrow> Inl e
                | Inr data \<Rightarrow> Inr (js_or (Some data) (JArr []))))"

definition fetchUpcomingResults :: "http_reply \<Rightarrow> js_error + json" where
  "fetchUpcomingResults reply =
     (case fetchUpcomingResults_try reply of
        Inr v \<Rightarrow> Inr v
      | Inl error \<Rightarrow> Inr (JArr []))"

definition fetchLatestResults_try :: "http_reply \<Rightarrow> js_error + json" where
  "fetchLatestResults_try reply =
     (case reply of
        Rejected e \<Rightarrow> Inl e
      | Response ok body \<Rightarrow>
          if \<not> ok then Inl (JsError (utf16 ''Failed to fetch latest results''))
          else (case body of
                  Inl e \<Rightarrow> Inl e
                | Inr data \<Rightarrow> Inr (js_or (Some data) (JArr []))))"

definition fetchLatestResults :: "http_reply \<Rightarrow> js_error + json" where
  "fetchLatestResults reply =
     (case fetchLatestResults_try reply of
        Inr v \<Rightarrow> Inr v
      | Inl error \<Rightarrow> Inr (JArr []))"

definition sorry_answer :: js_string where
  "sorry_answer = utf16 ''Sorry, I could not process that.''"

definition connection_error :: js_string where
  "connection_error =
     utf16 ''Error connecting to server. Please check if the backend is running.''"

definition sendChatMessage_try :: "js_string \<Rightarrow> http_reply \<Rightarrow> js_error + json" where
  "sendChatMessage_try question reply =
     (case reply of
        Rejected e \<Rightarrow> Inl e
      | Response ok body \<Rightarrow>
          if \<not> ok then Inl (JsError (utf16 ''Failed to send message''))
          else (case body of
                  Inl e \<Rightarrow> Inl e
                | Inr data \<Rightarrow>
                    (case get_response data of
                       Inl e \<Rightarrow> Inl e
                     | Inr r \<Rightarrow> Inr (js_or r (JStr sorry_answer)))))"

definition sendChatMessage :: "js_string \<Rightarrow> http_reply \<Rightarrow> js_error + json" where
  "sendChatMessage question reply =
     (case sendChatMessage_try question reply of
        Inr v \<Rightarrow> Inr v
      | Inl error \<Rightarrow> Inr (JStr connection_error))"

text \<open>The tagged result \<open>{status: 'success', data}\<close> or \<open>{status: 'error', error}\<close>.\<close>

datatype analysis_result =
    StatusSuccess json
  | StatusError js_string

definition triggerResultProcessing_try ::
  "js_string \<Rightarrow> js_string \<Rightarrow> http_reply \<Rightarrow> js_error + analysis_result" where
  "triggerResultProcessing_try company ticker reply =
     (case reply of
        Rejected e \<Rightarrow> Inl e
      | Response ok body \<Rightarrow>
          if \<not> ok then Inl (JsError (utf16 ''Failed to process result''))
          else (case body of
                  Inl e \<Rightarrow> Inl e
                | Inr data \<Rightarrow> Inr (StatusSuccess data)))"

definition triggerResultProcessing ::
  "js_string \<Rightarrow> js_string \<Rightarrow> http_reply \<Rightarrow> js_error + analysis_result" where
  "triggerResultProcessing company ticker reply =
     (case triggerResultProcessing_try company ticker reply of
        Inr v \<Rightarrow> Inr v
      | Inl error \<Rightarrow> Inr (StatusError (message error)))"

text \<open>A failure of a request: a transport error or a response whose status is not ok.\<close>

fun failed :: "http_reply \<Rightarrow> bool" where
  "failed (Rejected e) = True"
| "failed (Response ok body) = (\<not> ok)"

section \<open>The dashboard's state\<close>

datatype tab = Calendar | Latest | Chat

datatype sender = User | Bot

record chat_message =
  type :: sender
  "text" :: json

text \<open>The nine \<open>useState\<close> slots of the component; \<open>null\<close> is \<open>None\<close>.\<close>

record dashboard =
  activeTab :: tab
  upcomingResults :: json
  latestResults :: json
  chatInput :: js_string
  chatMessages :: "chat_message list"
  loading :: bool
  error :: "js_string option"
  processingCompany :: "js_string option"
  notification :: "js_string option"

definition greeting :: chat_message where
  \<open>greeting = \<lparr>type = Bot, text = JStr (utf16
     ''Hey! Ask me anything about recent results. Try: "How did Wipro perform?"'')\<rparr>\<close>

definition initial_dashboard :: dashboard where
  "initial_dashboard =
     \<lparr>activeTab = Calendar, upcomingResults = JArr [], latestResults = JArr [],
      chatInput = [], chatMessages = [greeting], loading = False, error = None,
      processingCompany = None, notification = None\<rparr>"

text \<open>
  The calls of the state setters, in the order the code makes them. \<open>SetChatMessages\<close>
  carries the updater function that the code passes.
\<close>

datatype action =
    SetActiveTab tab
  | SetUpcomingResults json
  | SetLatestResults json
  | SetChatInput js_string
  | SetChatMessages "chat_message list \<Rightarrow> chat_message list"
  | SetLoading bool
  | SetError "js_string option"
  | SetProcessingCompany "js_string option"
  | SetNotification "js_string option"

fun perform :: "action \<Rightarrow> dashboard \<Rightarrow> dashboard" where
  "perform (SetActiveTab t) st = st\<lparr>activeTab := t\<rparr>"
| "perform (SetUpcomingResults d) st = st\<lparr>upcomingResults := d\<rparr>"
| "perform (SetLatestResults d) st = st\<lparr>latestResults := d\<rparr>"
| "perform (SetChatInput s) st = st\<lparr>chatInput := s\<rparr>"
| "perform (SetChatMessages f) st = st\<lparr>chatMessages := f (chatMessages st)\<rparr>"
| "perform (SetLoading b) st = st\<lparr>loading := b\<rparr>"
| "perform (SetError e) st = st\<lparr>error := e\<rparr>"
| "perform (SetProcessingCompany c) st = st\<lparr>processingCompany := c\<rparr>"
| "perform (SetNotification n) st = st\<lparr>notification := n\<rparr>"

definition run_actions :: "action list \<Rightarrow> dashboard \<Rightarrow> dashboard" where
  "run_actions acts st = fold perform acts st"

section \<open>The asynchronous handlers\<close>

text \<open>
  An async function runs synchronously up to its \<open>await\<close>, where the API call is issued
  and the function is suspended, and runs its remainder when the call settles. A
  suspended function is a task; it keeps the variables its remainder reads.
\<close>

datatype task =
    LoadUpcomingTask
  | LoadLatestTask
  | ProcessTask js_string js_string
  | ChatTask js_string

text \<open>
  How a stretch of a handler ends: it returns, it throws (the promise of the handler
  rejects), or it awaits an API call.
\<close>

datatype completion = Returned | Threw js_error | Awaiting task

type_synonym segment = "action list \<times> completion"

definition loadUpcomingResults :: segment where
  "loadUpcomingResults = ([SetLoading True, SetError None], Awaiting LoadUpcomingTask)"

definition loadUpcomingResults_resume :: "js_error + json \<Rightarrow> segment" where
  "loadUpcomingResults_resume outcome =
     (case outcome of
        Inr data \<Rightarrow> ([SetUpcomingResults data] @ [SetLoading False], Returned)
      | Inl err \<Rightarrow>
          ([SetError (Some (utf16 ''Failed to load upcoming results''))] @ [SetLoading False],
           Returned))"

definition loadLatestResults :: segment where
  "loadLatestResults = ([SetLoading True, SetError None], Awaiting LoadLatestTask)"

definition loadLatestResults_resume :: "js_error + json \<Rightarrow> segment" where
  "loadLatestResults_resume outcome =
     (case outcome of
        Inr data \<Rightarrow> ([SetLatestResults data] @ [SetLoading False], Returned)
      | Inl err \<Rightarrow>
          ([SetError (Some (utf16 ''Failed to load latest results''))] @ [SetLoading False],
           Returned))"

definition success_message :: "js_string \<Rightarrow> js_string" where
  "success_message company =
     [0x2705] @ utf16 '' Successfully processed '' @ company @ utf16 '' results!''"

definition error_message :: "js_string \<Rightarrow> js_string \<Rightarrow> js_string" where
  "error_message company err =
     [0x274C] @ utf16 '' Error processing '' @ company @ utf16 '': '' @ err"

definition handleProcessResult :: "js_string \<Rightarrow> js_string \<Rightarrow> segment" where
  "handleProcessResult company ticker =
     ([SetProcessingCompany (Some company)], Awaiting (ProcessTask company ticker))"

definition handleProcessResult_resume ::
  "js_string \<Rightarrow> js_error + analysis_result \<Rightarrow> segment" where
  "handleProcessResult_resume company outcome =
     (case outcome of
        Inl e \<Rightarrow> ([], Threw e)
      | Inr result \<Rightarrow>
          ((case result of
              StatusSuccess data \<Rightarrow>
                [SetNotification (Some (success_message company)), SetActiveTab Latest]
            | StatusError err \<Rightarrow>
                [SetNotification (Some (error_message company err))])
           @ [SetProcessingCompany None], Returned))"

definition thinkingMessage :: chat_message where
  "thinkingMessage =
     \<lparr>type = Bot, text = JStr ([0xD83E, 0xDD14] @ utf16 '' Analyzing...'')\<rparr>"

definition handleChatSubmit :: "dashboard \<Rightarrow> segment" where
  "handleChatSubmit st =
     (if trim (chatInput st) = [] then ([], Returned)
      else
        let userMessage = \<lparr>type = User, text = JStr (chatInput st)\<rparr>
        in ([SetChatMessages (\<lambda>prev. prev @ [userMessage]),
             SetChatInput [],
             SetChatMessages (\<lambda>prev. prev @ [thinkingMessage])],
            Awaiting (ChatTask (chatInput st))))"

definition handleChatSubmit_resume :: "js_error + json \<Rightarrow> segment" where
  "handleChatSubmit_resume outcome =
     (case outcome of
        Inl e \<Rightarrow> ([], Threw e)
      | Inr answer \<Rightarrow>
          ([SetChatMessages (\<lambda>prev. butlast prev @ [\<lparr>type = Bot, text = answer\<rparr>])],
           Returned))"

text \<open>The remainder of a task, run on the reply to its request.\<close>

fun resume :: "task \<Rightarrow> http_reply \<Rightarrow> segment" where
  "resume LoadUpcomingTask reply = loadUpcomingResults_resume (fetchUpcomingResults reply)"
| "resume LoadLatestTask reply = loadLatestResults_resume (fetchLatestResults reply)"
| "resume (ProcessTask company ticker) reply =
     handleProcessResult_resume company (triggerResultProcessing company ticker reply)"
| "resume (ChatTask question) reply =
     handleChatSubmit_resume (sendChatMessage question reply)"

section \<open>The component at run time\<close>

text \<open>
  Beside the state slots, the running component has: for each of its two effects the
  dependency value of the last run (\<open>None\<close> before the first render), the timer that
  the cleanup of the notification effect will clear, the pending timeouts with their
  due times in milliseconds, the clock, and the suspended tasks.
\<close>

record system =
  ui :: dashboard
  tabDeps :: "tab option"
  notificationDeps :: "js_string option option"
  cleanup :: "nat option"
  timers :: "(nat \<times> nat) list"
  nextTimer :: nat
  now :: nat
  tasks :: "task list"

definition initial_system :: system where
  "initial_system =
     \<lparr>ui = initial_dashboard, tabDeps = None, notificationDeps = None, cleanup = None,
      timers = [], nextTimer = 0, now = 0, tasks = []\<rparr>"

definition run_segment :: "segment \<Rightarrow> system \<Rightarrow> system" where
  "run_segment seg s =
     (case seg of (acts, c) \<Rightarrow>
        s\<lparr>ui := run_actions acts (ui s),
          tasks := (case c of Awaiting t \<Rightarrow> tasks s @ [t] | _ \<Rightarrow> tasks s)\<rparr>)"

text \<open>
  The effect on \<open>[activeTab]\<close>: it runs after the first render and after every render
  in which \<open>activeTab\<close> differs from its value at the last run.
\<close>

definition tab_effect :: "system \<Rightarrow> system" where
  "tab_effect s =
     (if tabDeps s = Some (activeTab (ui s)) then s
      else
        let s' = s\<lparr>tabDeps := Some (activeTab (ui s))\<rparr>
        in if activeTab (ui s) = Calendar then run_segment loadUpcomingResults s'
           else if activeTab (ui s) = Latest then run_segment loadLatestResults s'
           else s')"

definition clearTimeout :: "nat \<Rightarrow> system \<Rightarrow> system" where
  "clearTimeout t s = s\<lparr>timers := filter (\<lambda>(i, due). i \<noteq> t) (timers s)\<rparr>"

definition setTimeout :: "nat \<Rightarrow> system \<Rightarrow> nat \<times> system" where
  "setTimeout delay s =
     (nextTimer s,
      s\<lparr>timers := timers s @ [(nextTimer s, now s + delay)], nextTimer := nextTimer s + 1\<rparr>)"

text \<open>Whether the notification slot is truthy: a string that is not empty.\<close>

definition visible :: "js_string option \<Rightarrow> bool" where
  "visible n \<longleftrightarrow> n \<noteq> None \<and> n \<noteq> Some []"

text \<open>
  The effect on \<open>[notification]\<close>: when the value differs from the one at the last run,
  the cleanup that the last run returned is called, and then the body runs: a truthy
  notification sets a timeout of 3000 and returns the cleanup that clears it.
\<close>

definition notification_effect :: "system \<Rightarrow> system" where
  "notification_effect s =
     (if notificationDeps s = Some (notification (ui s)) then s
      else
        let s1 = (case cleanup s of None \<Rightarrow> s | Some t \<Rightarrow> clearTimeout t s);
            s2 = s1\<lparr>notificationDeps := Some (notification (ui s)), cleanup := None\<rparr>
        in if visible (notification (ui s)) then
             (case setTimeout 3000 s2 of (timer, s3) \<Rightarrow> s3\<lparr>cleanup := Some timer\<rparr>)
           else s2)"

text \<open>A render is committed and the effects run, in the order of their declaration.\<close>

definition commit :: "system \<Rightarrow> system" where
  "commit s = notification_effect (tab_effect s)"

definition mounted :: system where
  "mounted = commit initial_system"

text \<open>
  A timeout that is still pending fires: it leaves the pending list and its callback,
  \<open>setNotification(null)\<close>, runs.
\<close>

fun fire :: "(nat \<times> nat) list \<Rightarrow> system \<Rightarrow> system" where
  "fire [] s = s"
| "fire (t # ts) s =
     fire ts
       (if t \<in> set (timers s) then
          commit (s\<lparr>timers := remove1 t (timers s),
                    ui := perform (SetNotification None) (ui s)\<rparr>)
        else s)"

definition elapse :: "nat \<Rightarrow> system \<Rightarrow> system" where
  "elapse dt s =
     (let s' = s\<lparr>now := now s + dt\<rparr>
      in fire (filter (\<lambda>(i, due). due \<le> now s') (timers s')) s')"

text \<open>
  What happens to the component: the user selects a tab, clicks a card of the calendar,
  edits the chat input, submits the chat form, presses refresh or dismisses the error
  banner; the request of a suspended task is answered; time passes.
\<close>

datatype event =
    Select tab
  | ClickCard js_string js_string
  | ChangeInput js_string
  | Submit
  | Refresh
  | DismissError
  | Resolve task http_reply
  | Elapse nat

fun handle :: "event \<Rightarrow> system \<Rightarrow> system" where
  "handle (Select t) s = run_segment ([SetActiveTab t], Returned) s"
| "handle (ClickCard company ticker) s = run_segment (handleProcessResult company ticker) s"
| "handle (ChangeInput v) s = run_segment ([SetChatInput v], Returned) s"
| "handle Submit s = run_segment (handleChatSubmit (ui s)) s"
| "handle Refresh s =
     run_segment
       (if activeTab (ui s) = Calendar then loadUpcomingResults else loadLatestResults) s"
| "handle DismissError s = run_segment ([SetError None], Returned) s"
| "handle (Resolve t reply) s =
     (if t \<in> set (tasks s) then run_segment (resume t reply) (s\<lparr>tasks := remove1 t (tasks s)\<rparr>)
      else s)"
| "handle (Elapse dt) s = elapse dt s"

definition dispatch :: "event \<Rightarrow> system \<Rightarrow> system" where
  "dispatch e s = commit (handle e s)"

definition run :: "event list \<Rightarrow> system \<Rightarrow> system" where
  "run es s = fold dispatch es s"

text \<open>\<open>show(message)\<close> of the toast: \<open>setNotification(message)\<close> and the render it causes.\<close>

definition show_notification :: "js_string \<Rightarrow> system \<Rightarrow> system" where
  "show_notification m s = commit (run_segment ([SetNotification (Some m)], Returned) s)"

section \<open>Runs of the chat\<close>








section \<open>The toast and its timer\<close>

text \<open>
  The state of the toast is in order when the notification effect has run for the
  current value of the slot, and exactly the timeout that its cleanup will clear is
  pending while a message is on display, and none otherwise. The handle of a pending
  timeout is below the next handle that \<open>setTimeout\<close> gives out.
\<close>

definition armed :: "js_string option \<Rightarrow> system \<Rightarrow> bool" where
  "armed n s \<longleftrightarrow>
     (if visible n then
        length (timers s) = 1 \<and> cleanup s = Some (fst (hd (timers s))) \<and>
        fst (hd (timers s)) < nextTimer s
      else timers s = [])"

definition toast_ok :: "system \<Rightarrow> bool" where
  "toast_ok s \<longleftrightarrow> notificationDeps s = Some (notification (ui s)) \<and> armed (notification (ui s)) s"

section \<open>Properties of the API service\<close>

text \<open>
  Claim C3. None of the four operations of the API service throws or rejects to its
  caller: whatever the reply to the request, each returns a value. When the request
  fails (the transport rejects or the status is not ok), \<open>fetchUpcomingResults\<close> and
  \<open>fetchLatestResults\<close> return the empty array, \<open>sendChatMessage\<close> returns a fixed
  error string, and \<open>triggerResultProcessing\<close> returns a result tagged as an error.
\<close>

theorem api_never_throws:
  "(\<exists>v. fetchUpcomingResults reply = Inr v) \<and>
   (\<exists>v. fetchLatestResults reply = Inr v) \<and>
   (\<exists>v. sendChatMessage question reply = Inr v) \<and>
   (\<exists>v. triggerResultProcessing company ticker reply = Inr v) \<and>
   (failed reply \<longrightarrow>
      fetchUpcomingResults reply = Inr (JArr []) \<and>
      fetchLatestResults reply = Inr (JArr []) \<and>
      sendChatMessage question reply = Inr (JStr connection_error) \<and>
      triggerResultProcessing company ticker reply =
        Inr (StatusError (case reply of
                            Rejected e \<Rightarrow> message e
                          | Response ok body \<Rightarrow> utf16 ''Failed to process result'')))"
  by (cases reply)
     (auto simp: fetchUpcomingResults_def fetchUpcomingResults_try_def
        fetchLatestResults_def fetchLatestResults_try_def
        sendChatMessage_def sendChatMessage_try_def
        triggerResultProcessing_def triggerResultProcessing_try_def
        split: sum.splits)

theorem api_never_throws_witness:
  "failed (Response False (Inr JNull)) \<and>
   fetchUpcomingResults (Response False (Inr JNull)) = Inr (JArr []) \<and>
   fetchLatestResults (Response False (Inr JNull)) = Inr (JArr []) \<and>
   sendChatMessage (utf16 ''hi'') (Response False (Inr JNull)) = Inr (JStr connection_error) \<and>
   triggerResultProcessing (utf16 ''Wipro'') (utf16 ''WIPRO'') (Response False (Inr JNull))
     = Inr (StatusError (utf16 ''Failed to process result''))"
  using api_never_throws [of "Response False (Inr JNull)" "utf16 ''hi''" "utf16 ''Wipro''"
      "utf16 ''WIPRO''"]
  by simp

text \<open>
  Claim C10 as stated fails. With an ok status and a body that parses to \<open>null\<close>,
  no \<open>response\<close> field is there, yet reading the property throws, the handler catches
  it, and the answer is the string of a transport failure, not "Sorry, I could not
  process that.". A body that does not parse gives the same string.
\<close>

theorem chat_null_body:
  "sendChatMessage (utf16 ''hi'') (Response True (Inr JNull))
     = Inr (JStr (map of_char ''Error connecting to server. Please check if the backend is running.'')) \<and>
   sendChatMessage (utf16 ''hi'') (Response True (Inr JNull))
     \<noteq> Inr (JStr (map of_char ''Sorry, I could not process that.'')) \<and>
   sendChatMessage (utf16 ''hi'') (Response True (Inl (JsError (utf16 ''Unexpected token''))))
     = Inr (JStr (map of_char ''Error connecting to server. Please check if the backend is running.''))"
  by (simp add: sendChatMessage_def sendChatMessage_try_def connection_error_def utf16_def)

text \<open>
  Claim C10, amended. When the chat endpoint answers with an ok status and a body that
  parses to a value other than \<open>null\<close>, and the \<open>response\<close> property of that value
  is missing or falsy, \<open>sendChatMessage\<close> returns "Sorry, I could not process that.",
  which differs from "Error connecting to server. Please check if the backend is
  running.", the string that a transport or status failure gives. An ok response whose
  body is \<open>null\<close> or does not parse returns the string of the failure, whatever the
  question and the parse error, so only the former malformed responses can be told from
  a failure by the returned string.
\<close>

theorem chat_malformed:
  assumes "get_response data = Inr r" and "r = None \<or> (\<exists>v. r = Some v \<and> \<not> truthy v)"
  shows "sendChatMessage question (Response True (Inr data))
           = Inr (JStr (map of_char ''Sorry, I could not process that.'')) \<and>
         (map of_char ''Sorry, I could not process that.'' :: js_string)
           \<noteq> map of_char ''Error connecting to server. Please check if the backend is running.'' \<and>
         (failed reply \<longrightarrow>
            sendChatMessage question reply
              = Inr (JStr (map of_char ''Error connecting to server. Please check if the backend is running.''))) \<and>
         sendChatMessage question (Response True (Inr JNull))
           = Inr (JStr (map of_char ''Error connecting to server. Please check if the backend is running.'')) \<and>
         sendChatMessage question (Response True (Inl e))
           = Inr (JStr (map of_char ''Error connecting to server. Please check if the backend is running.''))"
proof -
  have a: "sendChatMessage question (Response True (Inr data)) = Inr (JStr sorry_answer)"
    using assms by (auto simp: sendChatMessage_def sendChatMessage_try_def)
  have b: "failed reply \<Longrightarrow> sendChatMessage question reply = Inr (JStr connection_error)"
    by (cases reply) (simp_all add: sendChatMessage_def sendChatMessage_try_def)
  have c: "sendChatMessage question (Response True (Inr JNull)) = Inr (JStr connection_error)"
    "sendChatMessage question (Response True (Inl e)) = Inr (JStr connection_error)"
    by (simp_all add: sendChatMessage_def sendChatMessage_try_def)
  have d: "(map of_char ''Sorry, I could not process that.'' :: js_string)
             \<noteq> map of_char ''Error connecting to server. Please check if the backend is running.''"
    by simp
  from a b c d show ?thesis
    by (simp add: sorry_answer_def connection_error_def utf16_def)
qed

theorem chat_malformed_witness:
  "get_response (JObj [(utf16 ''response'', JStr [])]) = Inr (Some (JStr [])) \<and>
   \<not> truthy (JStr []) \<and>
   sendChatMessage (utf16 ''hi'') (Response True (Inr (JObj [(utf16 ''response'', JStr [])])))
     = Inr (JStr (map of_char ''Sorry, I could not process that.'')) \<and>
   failed (Rejected (JsError [])) \<and>
   sendChatMessage (utf16 ''hi'') (Rejected (JsError []))
     = Inr (JStr (map of_char ''Error connecting to server. Please check if the backend is running.''))"
  using chat_malformed [of "JObj [(utf16 ''response'', JStr [])]" "Some (JStr [])"
      "utf16 ''hi''" "Rejected (JsError [])" "JsError []"]
  by simp

section \<open>Basic facts about segments and renders\<close>

lemma run_actions_Nil: "run_actions [] st = st"
  by (simp add: run_actions_def)

lemma run_actions_Cons: "run_actions (a # acts) st = run_actions acts (perform a st)"
  by (simp add: run_actions_def)

lemma ui_run_segment: "ui (run_segment (acts, c) s) = run_actions acts (ui s)"
  by (simp add: run_segment_def)

lemma tasks_run_segment:
  "tasks (run_segment (acts, c) s) = (case c of Awaiting t \<Rightarrow> tasks s @ [t] | _ \<Rightarrow> tasks s)"
  by (simp add: run_segment_def)

lemma rest_run_segment:
  "tabDeps (run_segment seg s) = tabDeps s"
  "notificationDeps (run_segment seg s) = notificationDeps s"
  "cleanup (run_segment seg s) = cleanup s"
  "timers (run_segment seg s) = timers s"
  "nextTimer (run_segment seg s) = nextTimer s"
  "now (run_segment seg s) = now s"
  by (simp_all add: run_segment_def split: prod.splits)

text \<open>What the two effects leave as it is, and the loads that the first one starts.\<close>

lemma tab_effect_ui:
  "activeTab (ui (tab_effect s)) = activeTab (ui s)"
  "upcomingResults (ui (tab_effect s)) = upcomingResults (ui s)"
  "latestResults (ui (tab_effect s)) = latestResults (ui s)"
  "chatInput (ui (tab_effect s)) = chatInput (ui s)"
  "chatMessages (ui (tab_effect s)) = chatMessages (ui s)"
  "processingCompany (ui (tab_effect s)) = processingCompany (ui s)"
  "notification (ui (tab_effect s)) = notification (ui s)"
  by (simp_all add: tab_effect_def Let_def run_segment_def run_actions_def
        loadUpcomingResults_def loadLatestResults_def)

lemma tab_effect_rest:
  "notificationDeps (tab_effect s) = notificationDeps s"
  "cleanup (tab_effect s) = cleanup s"
  "timers (tab_effect s) = timers s"
  "nextTimer (tab_effect s) = nextTimer s"
  "now (tab_effect s) = now s"
  "tabDeps (tab_effect s) = Some (activeTab (ui s))"
  by (simp_all add: tab_effect_def Let_def run_segment_def run_actions_def
        loadUpcomingResults_def loadLatestResults_def)

lemma tab_effect_tasks:
  "tasks (tab_effect s) =
     (if tabDeps s = Some (activeTab (ui s)) then tasks s
      else case activeTab (ui s) of
             Calendar \<Rightarrow> tasks s @ [LoadUpcomingTask]
           | Latest \<Rightarrow> tasks s @ [LoadLatestTask]
           | Chat \<Rightarrow> tasks s)"
  by (cases "activeTab (ui s)")
     (simp_all add: tab_effect_def Let_def run_segment_def loadUpcomingResults_def
        loadLatestResults_def)

lemma notification_effect_ui: "ui (notification_effect s) = ui s"
  by (simp add: notification_effect_def Let_def setTimeout_def clearTimeout_def
        split: option.splits)

lemma notification_effect_rest:
  "tasks (notification_effect s) = tasks s"
  "tabDeps (notification_effect s) = tabDeps s"
  "now (notification_effect s) = now s"
  "notificationDeps (notification_effect s) = Some (notification (ui s))"
  by (simp_all add: notification_effect_def Let_def setTimeout_def clearTimeout_def
        split: option.splits)

lemma commit_ui:
  "activeTab (ui (commit s)) = activeTab (ui s)"
  "upcomingResults (ui (commit s)) = upcomingResults (ui s)"
  "latestResults (ui (commit s)) = latestResults (ui s)"
  "chatInput (ui (commit s)) = chatInput (ui s)"
  "chatMessages (ui (commit s)) = chatMessages (ui s)"
  "processingCompany (ui (commit s)) = processingCompany (ui s)"
  "notification (ui (commit s)) = notification (ui s)"
  by (simp_all add: commit_def notification_effect_ui tab_effect_ui)

lemma commit_tasks:
  "tasks (commit s) =
     (if tabDeps s = Some (activeTab (ui s)) then tasks s
      else case activeTab (ui s) of
             Calendar \<Rightarrow> tasks s @ [LoadUpcomingTask]
           | Latest \<Rightarrow> tasks s @ [LoadLatestTask]
           | Chat \<Rightarrow> tasks s)"
  by (simp add: commit_def notification_effect_rest tab_effect_tasks)

lemma commit_deps:
  "tabDeps (commit s) = Some (activeTab (ui s))"
  "notificationDeps (commit s) = Some (notification (ui s))"
  "now (commit s) = now s"
  by (simp_all add: commit_def notification_effect_rest tab_effect_rest tab_effect_ui)

lemma mounted_fields:
  "tabDeps mounted = Some Calendar"
  "notificationDeps mounted = Some None"
  "tasks mounted = [LoadUpcomingTask]"
  "chatMessages (ui mounted) = [greeting]"
  "activeTab (ui mounted) = Calendar"
  "notification (ui mounted) = None"
  "now mounted = 0"
  by (simp_all add: mounted_def commit_ui commit_tasks commit_deps initial_system_def
        initial_dashboard_def)

lemma mounted_timers:
  "timers mounted = []"
  "cleanup mounted = None"
  "nextTimer mounted = 0"
  by (simp_all add: mounted_def commit_def notification_effect_def visible_def tab_effect_rest
        tab_effect_ui initial_system_def initial_dashboard_def)

section \<open>The processing workflow\<close>


lemma process_outcome:
  "triggerResultProcessing company ticker reply =
     (case reply of
        Rejected e \<Rightarrow> Inr (StatusError (message e))
      | Response ok body \<Rightarrow>
          if \<not> ok then Inr (StatusError (utf16 ''Failed to process result''))
          else (case body of
                  Inl e \<Rightarrow> Inr (StatusError (message e))
                | Inr data \<Rightarrow> Inr (StatusSuccess data)))"
  by (simp add: triggerResultProcessing_def triggerResultProcessing_try_def
        split: http_reply.splits sum.splits)

text \<open>
  Claim C1. A click on a card sets the processing slot to the company and then issues
  the analysis request. When the request is answered: a result with status success sets
  the toast to U+2705, " Successfully processed ", the company and " results!", clears
  the slot and makes \<open>latest\<close> the active tab; a result with status error sets the
  toast to U+274C, " Error processing ", the company, ": " and the error detail, clears
  the slot and leaves the active tab as it is.
\<close>

theorem process_workflow:
  "processingCompany (ui (dispatch (ClickCard company ticker) s)) = Some company \<and>
   snd (handleProcessResult company ticker) = Awaiting (ProcessTask company ticker) \<and>
   ProcessTask company ticker \<in> set (tasks (dispatch (ClickCard company ticker) s)) \<and>
   (ProcessTask company ticker \<in> set (tasks s') \<longrightarrow>
      (let s2 = dispatch (Resolve (ProcessTask company ticker) reply) s'
       in case triggerResultProcessing company ticker reply of
            Inl e \<Rightarrow> False
          | Inr (StatusSuccess d) \<Rightarrow>
              notification (ui s2) =
                Some ([0x2705] @ map of_char '' Successfully processed '' @ company @ map of_char '' results!'') \<and>
              processingCompany (ui s2) = None \<and>
              activeTab (ui s2) = Latest
          | Inr (StatusError err) \<Rightarrow>
              notification (ui s2) =
                Some ([0x274C] @ map of_char '' Error processing '' @ company @ map of_char '': '' @ err) \<and>
              processingCompany (ui s2) = None \<and>
              activeTab (ui s2) = activeTab (ui s')))"
proof -
  have click: "processingCompany (ui (dispatch (ClickCard company ticker) s)) = Some company"
    by (simp add: dispatch_def commit_ui handleProcessResult_def ui_run_segment
          run_actions_Cons run_actions_Nil)
  have await: "snd (handleProcessResult company ticker) = Awaiting (ProcessTask company ticker)"
    by (simp add: handleProcessResult_def)
  have issued: "ProcessTask company ticker \<in> set (tasks (dispatch (ClickCard company ticker) s))"
    by (simp add: dispatch_def commit_tasks handleProcessResult_def tasks_run_segment
          split: tab.splits)
  have resolved: "let s2 = dispatch (Resolve (ProcessTask company ticker) reply) s'
       in case triggerResultProcessing company ticker reply of
            Inl e \<Rightarrow> False
          | Inr (StatusSuccess d) \<Rightarrow>
              notification (ui s2) =
                Some ([0x2705] @ map of_char '' Successfully processed '' @ company @ map of_char '' results!'') \<and>
              processingCompany (ui s2) = None \<and>
              activeTab (ui s2) = Latest
          | Inr (StatusError err) \<Rightarrow>
              notification (ui s2) =
                Some ([0x274C] @ map of_char '' Error processing '' @ company @ map of_char '': '' @ err) \<and>
              processingCompany (ui s2) = None \<and>
              activeTab (ui s2) = activeTab (ui s')"
    if "ProcessTask company ticker \<in> set (tasks s')"
    using that
    by (simp add: dispatch_def commit_ui handleProcessResult_resume_def run_segment_def
          run_actions_Cons run_actions_Nil Let_def process_outcome success_message_def
          error_message_def utf16_def split: http_reply.splits sum.splits)
  from click await issued resolved show ?thesis by blast
qed

theorem process_workflow_witness:
  "ProcessTask (utf16 ''Wipro'') (utf16 ''WIPRO'')
     \<in> set (tasks (dispatch (ClickCard (utf16 ''Wipro'') (utf16 ''WIPRO'')) mounted)) \<and>
   notification (ui (dispatch (Resolve (ProcessTask (utf16 ''Wipro'') (utf16 ''WIPRO''))
        (Rejected (JsError (utf16 ''timeout''))))
      (dispatch (ClickCard (utf16 ''Wipro'') (utf16 ''WIPRO'')) mounted)))
     = Some ([0x274C] @ map of_char '' Error processing Wipro: timeout'') \<and>
   activeTab (ui (dispatch (Resolve (ProcessTask (utf16 ''Wipro'') (utf16 ''WIPRO''))
        (Rejected (JsError (utf16 ''timeout''))))
      (dispatch (ClickCard (utf16 ''Wipro'') (utf16 ''WIPRO'')) mounted))) = Calendar \<and>
   notification (ui (dispatch (Resolve (ProcessTask (utf16 ''Wipro'') (utf16 ''WIPRO''))
        (Response True (Inr (JObj []))))
      (dispatch (ClickCard (utf16 ''Wipro'') (utf16 ''WIPRO'')) mounted)))
     = Some ([0x2705] @ map of_char '' Successfully processed Wipro results!'') \<and>
   activeTab (ui (dispatch (Resolve (ProcessTask (utf16 ''Wipro'') (utf16 ''WIPRO''))
        (Response True (Inr (JObj []))))
      (dispatch (ClickCard (utf16 ''Wipro'') (utf16 ''WIPRO'')) mounted))) = Latest"
  using process_workflow [of "utf16 ''Wipro''" "utf16 ''WIPRO''" mounted
      "dispatch (ClickCard (utf16 ''Wipro'') (utf16 ''WIPRO'')) mounted"
      "Rejected (JsError (utf16 ''timeout''))"]
    process_workflow [of "utf16 ''Wipro''" "utf16 ''WIPRO''" mounted
      "dispatch (ClickCard (utf16 ''Wipro'') (utf16 ''WIPRO'')) mounted"
      "Response True (Inr (JObj []))"]
  by (simp add: process_outcome Let_def utf16_def dispatch_def commit_ui ui_run_segment
        handleProcessResult_def run_actions_Cons run_actions_Nil mounted_fields)

section \<open>Resource loads\<close>

text \<open>
  Claim C5. When a load is resumed with the value its fetch function resolved to, the
  stored list is exactly that value, whatever was stored before. When it is resumed with
  a rejection, the error slot is set, the stored list is unchanged, and the load still
  returns normally. With the fetch functions of the API service the stored list is the
  value they return for the reply.
\<close>

theorem load_snapshot:
  "(let seg = loadUpcomingResults_resume (Inr data); st' = run_actions (fst seg) st
    in upcomingResults st' = data \<and> loading st' = False \<and> error st' = error st \<and>
       snd seg = Returned) \<and>
   (let seg = loadUpcomingResults_resume (Inl e); st' = run_actions (fst seg) st
    in error st' = Some (utf16 ''Failed to load upcoming results'') \<and>
       upcomingResults st' = upcomingResults st \<and> loading st' = False \<and>
       snd seg = Returned) \<and>
   (let seg = loadLatestResults_resume (Inr data); st' = run_actions (fst seg) st
    in latestResults st' = data \<and> loading st' = False \<and> error st' = error st \<and>
       snd seg = Returned) \<and>
   (let seg = loadLatestResults_resume (Inl e); st' = run_actions (fst seg) st
    in error st' = Some (utf16 ''Failed to load latest results'') \<and>
       latestResults st' = latestResults st \<and> loading st' = False \<and>
       snd seg = Returned) \<and>
   (LoadUpcomingTask \<in> set (tasks s) \<longrightarrow>
      fetchUpcomingResults reply =
        Inr (upcomingResults (ui (dispatch (Resolve LoadUpcomingTask reply) s)))) \<and>
   (LoadLatestTask \<in> set (tasks s) \<longrightarrow>
      fetchLatestResults reply =
        Inr (latestResults (ui (dispatch (Resolve LoadLatestTask reply) s))))"
proof -
  have up: "\<exists>v. fetchUpcomingResults reply = Inr v"
    by (auto simp: fetchUpcomingResults_def split: sum.splits)
  have la: "\<exists>v. fetchLatestResults reply = Inr v"
    by (auto simp: fetchLatestResults_def split: sum.splits)
  have a: "LoadUpcomingTask \<in> set (tasks s) \<Longrightarrow>
      fetchUpcomingResults reply =
        Inr (upcomingResults (ui (dispatch (Resolve LoadUpcomingTask reply) s)))"
    using up
    by (auto simp: dispatch_def commit_ui loadUpcomingResults_resume_def run_segment_def
          run_actions_Cons run_actions_Nil)
  have b: "LoadLatestTask \<in> set (tasks s) \<Longrightarrow>
      fetchLatestResults reply =
        Inr (latestResults (ui (dispatch (Resolve LoadLatestTask reply) s)))"
    using la
    by (auto simp: dispatch_def commit_ui loadLatestResults_resume_def run_segment_def
          run_actions_Cons run_actions_Nil)
  show ?thesis
    using a b
    by (simp add: loadUpcomingResults_resume_def loadLatestResults_resume_def
          run_actions_Cons run_actions_Nil Let_def)
qed

lemma both_loads_outstanding:
  "tasks (dispatch (Select Latest) mounted) = [LoadUpcomingTask, LoadLatestTask]"
  by (simp add: dispatch_def commit_tasks ui_run_segment tasks_run_segment rest_run_segment
        run_actions_Cons run_actions_Nil mounted_fields)

theorem load_snapshot_witness:
  "LoadUpcomingTask \<in> set (tasks (dispatch (Select Latest) mounted)) \<and>
   LoadLatestTask \<in> set (tasks (dispatch (Select Latest) mounted)) \<and>
   upcomingResults (ui (dispatch (Resolve LoadUpcomingTask
       (Response True (Inr (JArr [JObj [(utf16 ''company_name'', JStr (utf16 ''Wipro''))]]))))
     (dispatch (Select Latest) mounted)))
     = JArr [JObj [(utf16 ''company_name'', JStr (utf16 ''Wipro''))]] \<and>
   latestResults (ui (dispatch (Resolve LoadLatestTask
       (Response True (Inr (JArr [JObj [(utf16 ''company_name'', JStr (utf16 ''Wipro''))]]))))
     (dispatch (Select Latest) mounted)))
     = JArr [JObj [(utf16 ''company_name'', JStr (utf16 ''Wipro''))]]"
  using load_snapshot [of "JNull" initial_dashboard "JsError []"
      "dispatch (Select Latest) mounted"
      "Response True (Inr (JArr [JObj [(utf16 ''company_name'', JStr (utf16 ''Wipro''))]]))"]
  by (simp add: both_loads_outstanding fetchUpcomingResults_def fetchUpcomingResults_try_def
        fetchLatestResults_def fetchLatestResults_try_def)

section \<open>The processing slot\<close>

lemma commit_tasks_mono: "b \<in> set (tasks s) \<Longrightarrow> b \<in> set (tasks (commit s))"
  by (simp add: commit_tasks split: tab.splits)

text \<open>
  Claim C4. The processing slot holds at most one company (it is an option). A click on
  the card of \<open>x\<close> sets it to \<open>x\<close>; a click on the card of \<open>y\<close> while the request
  for \<open>x\<close> is outstanding overwrites it with \<open>y\<close>. Both requests are then
  outstanding, and answering either one leaves the other outstanding.
\<close>

theorem single_flight_overwrite:
  assumes "tabDeps s = Some (activeTab (ui s))"
  shows "let s1 = dispatch (ClickCard x tx) s; s2 = dispatch (ClickCard y ty) s1
         in processingCompany (ui s1) = Some x \<and>
            tasks s1 = tasks s @ [ProcessTask x tx] \<and>
            processingCompany (ui s2) = Some y \<and>
            tasks s2 = tasks s @ [ProcessTask x tx, ProcessTask y ty] \<and>
            ProcessTask y ty \<in> set (tasks (dispatch (Resolve (ProcessTask x tx) rx) s2)) \<and>
            ProcessTask x tx \<in> set (tasks (dispatch (Resolve (ProcessTask y ty) ry) s2))"
proof -
  define s1 where "s1 = dispatch (ClickCard x tx) s"
  define s2 where "s2 = dispatch (ClickCard y ty) s1"
  have a1: "activeTab (ui s1) = activeTab (ui s)" "tabDeps s1 = Some (activeTab (ui s1))"
    by (simp_all add: s1_def dispatch_def commit_ui commit_deps handleProcessResult_def
          ui_run_segment run_actions_Cons run_actions_Nil)
  have p1: "processingCompany (ui s1) = Some x"
    by (simp add: s1_def dispatch_def commit_ui handleProcessResult_def ui_run_segment
          run_actions_Cons run_actions_Nil)
  have t1: "tasks s1 = tasks s @ [ProcessTask x tx]"
    using assms
    by (simp add: s1_def dispatch_def commit_tasks handleProcessResult_def ui_run_segment
          tasks_run_segment rest_run_segment run_actions_Cons run_actions_Nil)
  have p2: "processingCompany (ui s2) = Some y"
    by (simp add: s2_def dispatch_def commit_ui handleProcessResult_def ui_run_segment
          run_actions_Cons run_actions_Nil)
  have t2: "tasks s2 = tasks s @ [ProcessTask x tx, ProcessTask y ty]"
    using a1 t1
    by (simp add: s2_def dispatch_def commit_tasks handleProcessResult_def ui_run_segment
          tasks_run_segment rest_run_segment run_actions_Cons run_actions_Nil)
  have keep: "b \<in> set (tasks (dispatch (Resolve a r) s2))"
    if "b \<in> set (remove1 a (tasks s2))" for a b r
  proof -
    have "b \<in> set (tasks (handle (Resolve a r) s2))"
    proof (cases "a \<in> set (tasks s2)")
      case True
      then show ?thesis
        using that by (cases "resume a r") (simp add: run_segment_def split: completion.splits)
    next
      case False
      then show ?thesis
        using that by (simp add: remove1_idem)
    qed
    then show ?thesis
      unfolding dispatch_def by (rule commit_tasks_mono)
  qed
  have r1: "ProcessTask y ty \<in> set (remove1 (ProcessTask x tx) (tasks s2))"
    by (simp add: t2 remove1_append)
  have r2: "ProcessTask x tx \<in> set (remove1 (ProcessTask y ty) (tasks s2))"
    by (simp add: t2 remove1_append)
  show ?thesis
    using p1 t1 p2 t2 keep [OF r1] keep [OF r2]
    by (simp add: s1_def s2_def Let_def)
qed

theorem single_flight_overwrite_witness:
  "tabDeps mounted = Some (activeTab (ui mounted)) \<and>
   processingCompany (ui (dispatch (ClickCard (utf16 ''TCS'') (utf16 ''TCS''))
       (dispatch (ClickCard (utf16 ''Wipro'') (utf16 ''WIPRO'')) mounted)))
     = Some (utf16 ''TCS'') \<and>
   tasks (dispatch (ClickCard (utf16 ''TCS'') (utf16 ''TCS''))
       (dispatch (ClickCard (utf16 ''Wipro'') (utf16 ''WIPRO'')) mounted))
     = [LoadUpcomingTask, ProcessTask (utf16 ''Wipro'') (utf16 ''WIPRO''),
        ProcessTask (utf16 ''TCS'') (utf16 ''TCS'')]"
  using single_flight_overwrite [of mounted "utf16 ''Wipro''" "utf16 ''WIPRO''"
      "utf16 ''TCS''" "utf16 ''TCS''" "Rejected (JsError [])" "Rejected (JsError [])"]
  by (simp add: mounted_fields Let_def)

section \<open>Tabs and the chat submit\<close>

lemma handle_tabDeps: "(\<And>dt. e \<noteq> Elapse dt) \<Longrightarrow> tabDeps (handle e s) = tabDeps s"
  by (cases e) (auto simp: rest_run_segment)

lemma fire_activeTab: "activeTab (ui (fire ts s)) = activeTab (ui s)"
  by (induction ts arbitrary: s) (simp_all add: commit_ui)

lemma elapse_activeTab: "activeTab (ui (elapse dt s)) = activeTab (ui s)"
  by (simp add: elapse_def Let_def fire_activeTab)

text \<open>
  Claim C8. The tab is one of calendar, latest and chat, and starts as calendar, whose
  load the first render starts. Selecting a tab makes it the active tab, whatever the
  state. Whenever the active tab changes to calendar or to latest, the load of that tab
  is started, on every such entry and whatever the event that changes the tab (a
  selection or the success of the processing workflow); a change to chat starts no load.
\<close>

theorem tab_entry_loads:
  "activeTab initial_dashboard = Calendar \<and>
   tasks mounted = [LoadUpcomingTask] \<and>
   activeTab (ui (dispatch (Select t) s)) = t \<and>
   (tabDeps s = Some (activeTab (ui s)) \<and> activeTab (ui s) \<noteq> t \<longrightarrow>
      tasks (dispatch (Select t) s) =
        tasks s @ (case t of Calendar \<Rightarrow> [LoadUpcomingTask]
                   | Latest \<Rightarrow> [LoadLatestTask]
                   | Chat \<Rightarrow> [])) \<and>
   (tabDeps s = Some (activeTab (ui s)) \<and> activeTab (ui (dispatch e s)) \<noteq> activeTab (ui s) \<longrightarrow>
      tasks (dispatch e s) =
        tasks (handle e s) @ (case activeTab (ui (dispatch e s)) of
                                Calendar \<Rightarrow> [LoadUpcomingTask]
                              | Latest \<Rightarrow> [LoadLatestTask]
                              | Chat \<Rightarrow> []))"
proof -
  have select: "activeTab initial_dashboard = Calendar \<and>
      tasks mounted = [LoadUpcomingTask] \<and>
      activeTab (ui (dispatch (Select t) s)) = t \<and>
      (tabDeps s = Some (activeTab (ui s)) \<and> activeTab (ui s) \<noteq> t \<longrightarrow>
         tasks (dispatch (Select t) s) =
           tasks s @ (case t of Calendar \<Rightarrow> [LoadUpcomingTask]
                      | Latest \<Rightarrow> [LoadLatestTask]
                      | Chat \<Rightarrow> []))"
    by (cases t)
       (auto simp: dispatch_def commit_ui commit_tasks ui_run_segment tasks_run_segment
          rest_run_segment run_actions_Cons run_actions_Nil mounted_fields
          initial_dashboard_def)
  have entry: "tasks (dispatch e s) =
        tasks (handle e s) @ (case activeTab (ui (dispatch e s)) of
                                Calendar \<Rightarrow> [LoadUpcomingTask]
                              | Latest \<Rightarrow> [LoadLatestTask]
                              | Chat \<Rightarrow> [])"
    if deps: "tabDeps s = Some (activeTab (ui s))"
      and changed: "activeTab (ui (dispatch e s)) \<noteq> activeTab (ui s)"
  proof -
    have tab: "activeTab (ui (dispatch e s)) = activeTab (ui (handle e s))"
      by (simp add: dispatch_def commit_ui)
    have ne: "e \<noteq> Elapse dt" for dt
      using changed tab by (auto simp: elapse_activeTab)
    have "tabDeps (handle e s) \<noteq> Some (activeTab (ui (handle e s)))"
      using handle_tabDeps [OF ne] deps changed tab by simp
    then show ?thesis
      by (simp add: tab) (simp add: dispatch_def commit_tasks split: tab.splits)
  qed
  from select entry show ?thesis by blast
qed

text \<open>Selecting the tab that is active is no entry: the effect does not run again.\<close>

lemma select_active_tab_again:
  "tabDeps s = Some (activeTab (ui s)) \<Longrightarrow>
   tasks (dispatch (Select (activeTab (ui s))) s) = tasks s"
  by (simp add: dispatch_def commit_tasks ui_run_segment tasks_run_segment rest_run_segment
        run_actions_Cons run_actions_Nil)

lemma dispatch_select_deps:
  "tabDeps (dispatch e s) = Some (activeTab (ui (dispatch e s)))"
  by (simp add: dispatch_def commit_deps commit_ui)

theorem tab_entry_loads_witness:
  "tabDeps mounted = Some (activeTab (ui mounted)) \<and> activeTab (ui mounted) \<noteq> Chat \<and>
   tasks (run [Select Chat, Select Calendar, Select Latest, Select Calendar] mounted) =
     [LoadUpcomingTask, LoadUpcomingTask, LoadLatestTask, LoadUpcomingTask] \<and>
   tabDeps (dispatch (ClickCard (utf16 ''Wipro'') (utf16 ''WIPRO'')) mounted) =
     Some (activeTab (ui (dispatch (ClickCard (utf16 ''Wipro'') (utf16 ''WIPRO'')) mounted))) \<and>
   activeTab (ui (dispatch (ClickCard (utf16 ''Wipro'') (utf16 ''WIPRO'')) mounted)) = Calendar \<and>
   activeTab (ui (dispatch (Resolve (ProcessTask (utf16 ''Wipro'') (utf16 ''WIPRO''))
        (Response True (Inr (JObj []))))
      (dispatch (ClickCard (utf16 ''Wipro'') (utf16 ''WIPRO'')) mounted))) = Latest \<and>
   tasks (dispatch (Resolve (ProcessTask (utf16 ''Wipro'') (utf16 ''WIPRO''))
        (Response True (Inr (JObj []))))
      (dispatch (ClickCard (utf16 ''Wipro'') (utf16 ''WIPRO'')) mounted))
     = [LoadUpcomingTask, LoadLatestTask]"
proof -
  define s1 where "s1 = dispatch (Select Chat) mounted"
  define s2 where "s2 = dispatch (Select Calendar) s1"
  define s3 where "s3 = dispatch (Select Latest) s2"
  define s4 where "s4 = dispatch (Select Calendar) s3"
  have a1: "activeTab (ui s1) = Chat" "tabDeps s1 = Some (activeTab (ui s1))"
    using tab_entry_loads [of Chat mounted] by (simp_all add: s1_def dispatch_select_deps)
  have t1: "tasks s1 = [LoadUpcomingTask]"
    using tab_entry_loads [of Chat mounted] by (simp add: s1_def mounted_fields)
  have a2: "activeTab (ui s2) = Calendar" "tabDeps s2 = Some (activeTab (ui s2))"
    using tab_entry_loads [of Calendar s1] by (simp_all add: s2_def dispatch_select_deps)
  have t2: "tasks s2 = [LoadUpcomingTask, LoadUpcomingTask]"
    using tab_entry_loads [of Calendar s1] a1 t1 by (simp add: s2_def)
  have a3: "activeTab (ui s3) = Latest" "tabDeps s3 = Some (activeTab (ui s3))"
    using tab_entry_loads [of Latest s2] by (simp_all add: s3_def dispatch_select_deps)
  have t3: "tasks s3 = [LoadUpcomingTask, LoadUpcomingTask, LoadLatestTask]"
    using tab_entry_loads [of Latest s2] a2 t2 by (simp add: s3_def)
  have t4: "tasks s4 = [LoadUpcomingTask, LoadUpcomingTask, LoadLatestTask, LoadUpcomingTask]"
    using tab_entry_loads [of Calendar s3] a3 t3 by (simp add: s4_def)
  define c where "c = dispatch (ClickCard (utf16 ''Wipro'') (utf16 ''WIPRO'')) mounted"
  define r where "r = Resolve (ProcessTask (utf16 ''Wipro'') (utf16 ''WIPRO''))
                        (Response True (Inr (JObj [])))"
  have c1: "tabDeps c = Some (activeTab (ui c))" "activeTab (ui c) = Calendar"
    and c2: "tasks c = [LoadUpcomingTask, ProcessTask (utf16 ''Wipro'') (utf16 ''WIPRO'')]"
    by (simp_all add: c_def dispatch_def commit_deps commit_ui commit_tasks
          handleProcessResult_def ui_run_segment tasks_run_segment rest_run_segment
          run_actions_Cons run_actions_Nil mounted_fields)
  have h: "tasks (handle r c) = [LoadUpcomingTask]" "activeTab (ui (handle r c)) = Latest"
    using c2
    by (simp_all add: r_def process_outcome handleProcessResult_resume_def run_segment_def
          run_actions_Cons run_actions_Nil)
  have l: "activeTab (ui (dispatch r c)) = Latest"
    using h(2) by (simp add: dispatch_def commit_ui)
  have "tasks (dispatch r c) = [LoadUpcomingTask, LoadLatestTask]"
    using tab_entry_loads [of Chat c r] c1 l h(1) by simp
  then show ?thesis
    using t4 c1 l
    by (simp add: run_def s4_def s3_def s2_def s1_def mounted_fields c_def r_def)
qed

lemma submit_segment:
  "trim (chatInput st) \<noteq> [] \<Longrightarrow>
   handleChatSubmit st =
     ([SetChatMessages (\<lambda>prev. prev @ [\<lparr>type = User, text = JStr (chatInput st)\<rparr>]),
       SetChatInput [],
       SetChatMessages (\<lambda>prev. prev @ [thinkingMessage])],
      Awaiting (ChatTask (chatInput st)))"
  by (simp add: handleChatSubmit_def Let_def)

lemma submit_blank: "trim (chatInput st) = [] \<Longrightarrow> handleChatSubmit st = ([], Returned)"
  by (simp add: handleChatSubmit_def)

lemma dispatch_submit:
  assumes "trim (chatInput (ui s)) \<noteq> []"
  shows "chatMessages (ui (dispatch Submit s)) =
           chatMessages (ui s) @
             [\<lparr>type = User, text = JStr (chatInput (ui s))\<rparr>, thinkingMessage]"
    and "chatInput (ui (dispatch Submit s)) = []"
    and "tasks (handle Submit s) = tasks s @ [ChatTask (chatInput (ui s))]"
  using assms
  by (simp_all add: dispatch_def commit_ui submit_segment ui_run_segment tasks_run_segment
        run_actions_Cons run_actions_Nil)




text \<open>
  Claim C9. In a chat submit whose question is not blank, the user turn is appended, the
  input is cleared and the placeholder is appended before the handler reaches its
  \<open>await\<close>, where the request is issued: when the task becomes outstanding the
  transcript already ends with the placeholder. The answer to a chat request that is
  not outstanding changes nothing, so no answer can be applied before that point.
\<close>

theorem submit_before_call:
  assumes "trim (chatInput (ui s)) \<noteq> []"
  shows "let seg = handleChatSubmit (ui s); st' = run_actions (fst seg) (ui s);
             s' = dispatch Submit s
         in snd seg = Awaiting (ChatTask (chatInput (ui s))) \<and>
            chatMessages st' =
              chatMessages (ui s) @
                [\<lparr>type = User, text = JStr (chatInput (ui s))\<rparr>, thinkingMessage] \<and>
            chatInput st' = [] \<and>
            chatMessages (ui s') = chatMessages st' \<and>
            last (chatMessages (ui s')) = thinkingMessage \<and>
            ChatTask (chatInput (ui s)) \<in> set (tasks s') \<and>
            (ChatTask q \<notin> set (tasks s) \<longrightarrow>
               ui (handle (Resolve (ChatTask q) reply) s) = ui s)"
proof -
  have "ChatTask (chatInput (ui s)) \<in> set (tasks (handle Submit s))"
    by (simp only: dispatch_submit(3) [OF assms]) simp
  then have "ChatTask (chatInput (ui s)) \<in> set (tasks (dispatch Submit s))"
    unfolding dispatch_def by (rule commit_tasks_mono)
  then show ?thesis
    using assms dispatch_submit(1) [of s]
    by (simp add: submit_segment run_actions_Cons run_actions_Nil Let_def)
qed

theorem submit_before_call_witness:
  "trim (utf16 ''How did Wipro perform?'') \<noteq> [] \<and>
   ChatTask (utf16 ''x'')
     \<notin> set (tasks (dispatch (ChangeInput (utf16 ''How did Wipro perform?'')) mounted)) \<and>
   chatMessages (ui (dispatch Submit
       (dispatch (ChangeInput (utf16 ''How did Wipro perform?'')) mounted)))
     = [greeting, \<lparr>type = User, text = JStr (utf16 ''How did Wipro perform?'')\<rparr>,
        thinkingMessage]"
proof -
  define s where "s = dispatch (ChangeInput (utf16 ''How did Wipro perform?'')) mounted"
  have i: "chatInput (ui s) = utf16 ''How did Wipro perform?''"
    and m: "chatMessages (ui s) = [greeting]"
    by (simp_all add: s_def dispatch_def commit_ui ui_run_segment run_actions_Cons
          run_actions_Nil mounted_fields)
  have t: "trim (utf16 ''How did Wipro perform?'') \<noteq> []"
    by (simp add: trim_def utf16_def js_whitespace_def)
  have k: "tasks s = [LoadUpcomingTask]"
    by (simp add: s_def dispatch_def commit_tasks ui_run_segment tasks_run_segment
          rest_run_segment run_actions_Cons run_actions_Nil mounted_fields)
  from submit_before_call [of s "utf16 ''x''" "Rejected (JsError [])"] t i m k
  show ?thesis by (simp add: Let_def s_def [symmetric])
qed

section \<open>One round of the chat\<close>
















section \<open>The transcript\<close>

lemma run_Nil: "run [] s = s"
  by (simp add: run_def)

lemma run_Cons: "run (e # es) s = run es (dispatch e s)"
  by (simp add: run_def)










section \<open>The chat on failure\<close>




section \<open>Facts about the notification effect\<close>

lemma armed_clear:
  "armed old s \<Longrightarrow> timers (case cleanup s of None \<Rightarrow> s | Some t \<Rightarrow> clearTimeout t s) = []"
  by (cases "timers s"; cases "cleanup s")
     (auto simp: armed_def clearTimeout_def split: if_splits)

lemma clear_rest:
  "nextTimer (case cleanup s of None \<Rightarrow> s | Some t \<Rightarrow> clearTimeout t s) = nextTimer s"
  "now (case cleanup s of None \<Rightarrow> s | Some t \<Rightarrow> clearTimeout t s) = now s"
  "ui (case cleanup s of None \<Rightarrow> s | Some t \<Rightarrow> clearTimeout t s) = ui s"
  by (simp_all add: clearTimeout_def split: option.splits)

lemma notification_effect_same:
  "notificationDeps s = Some (notification (ui s)) \<Longrightarrow> notification_effect s = s"
  by (simp add: notification_effect_def)

lemma notification_effect_show:
  assumes "notificationDeps s = Some old" and "armed old s"
    and "notification (ui s) = Some m" and "m \<noteq> []" and "old \<noteq> Some m"
  shows "timers (notification_effect s) = [(nextTimer s, now s + 3000)]"
    and "cleanup (notification_effect s) = Some (nextTimer s)"
    and "nextTimer (notification_effect s) = nextTimer s + 1"
  using assms armed_clear [OF assms(2)]
  by (simp_all add: notification_effect_def visible_def Let_def setTimeout_def clear_rest)

lemma notification_effect_hide:
  assumes "notificationDeps s = Some old" and "timers s = []"
    and "notification (ui s) = None"
  shows "timers (notification_effect s) = []"
    and "nextTimer (notification_effect s) = nextTimer s"
  using assms
  by (auto simp: notification_effect_def visible_def Let_def clearTimeout_def
        split: option.splits)

lemma commit_toast_same:
  assumes "notificationDeps s = Some (notification (ui s))"
  shows "timers (commit s) = timers s" and "cleanup (commit s) = cleanup s"
    and "nextTimer (commit s) = nextTimer s"
  using assms
  by (simp_all add: commit_def notification_effect_same tab_effect_rest tab_effect_ui)

lemma armed_tab_effect: "armed old (tab_effect s) = armed old s"
  by (simp add: armed_def tab_effect_rest)

lemma commit_toast_show:
  assumes "notificationDeps s = Some old" and "armed old s"
    and "notification (ui s) = Some m" and "m \<noteq> []" and "old \<noteq> Some m"
  shows "timers (commit s) = [(nextTimer s, now s + 3000)]"
    and "cleanup (commit s) = Some (nextTimer s)"
    and "nextTimer (commit s) = nextTimer s + 1"
  using notification_effect_show [of "tab_effect s" old m] assms
  by (simp_all add: commit_def tab_effect_rest tab_effect_ui armed_tab_effect)

lemma commit_toast_hide:
  assumes "notificationDeps s = Some old" and "timers s = []"
    and "notification (ui s) = None"
  shows "timers (commit s) = []" and "nextTimer (commit s) = nextTimer s"
  using notification_effect_hide [of "tab_effect s" old] assms
  by (simp_all add: commit_def tab_effect_rest tab_effect_ui)

lemma set_notification:
  "notification (ui (run_segment ([SetNotification n], Returned) s)) = n"
  by (simp add: ui_run_segment run_actions_Cons run_actions_Nil)

lemma armed_run_segment: "armed old (run_segment seg s) = armed old s"
  by (simp add: armed_def rest_run_segment)

lemma show_fresh:
  assumes "toast_ok s" and "m \<noteq> []" and "notification (ui s) \<noteq> Some m"
  shows "notification (ui (show_notification m s)) = Some m"
    and "timers (show_notification m s) = [(nextTimer s, now s + 3000)]"
    and "nextTimer (show_notification m s) = nextTimer s + 1"
    and "now (show_notification m s) = now s"
    and "toast_ok (show_notification m s)"
proof -
  define s' where "s' = run_segment ([SetNotification (Some m)], Returned) s"
  have d: "notificationDeps s' = Some (notification (ui s))"
    and a: "armed (notification (ui s)) s'"
    and n: "notification (ui s') = Some m"
    and r: "nextTimer s' = nextTimer s" "now s' = now s"
    using assms(1)
    by (simp_all add: s'_def toast_ok_def rest_run_segment armed_run_segment set_notification)
  have neq: "notification (ui s) \<noteq> Some m" by (rule assms(3))
  note c = commit_toast_show [OF d a n assms(2) neq]
  show "notification (ui (show_notification m s)) = Some m"
    by (simp add: show_notification_def commit_ui set_notification)
  show t: "timers (show_notification m s) = [(nextTimer s, now s + 3000)]"
    using c(1) r by (simp add: show_notification_def s'_def)
  show "nextTimer (show_notification m s) = nextTimer s + 1"
    using c(3) r by (simp add: show_notification_def s'_def)
  show "now (show_notification m s) = now s"
    by (simp add: show_notification_def commit_deps rest_run_segment)
  show "toast_ok (show_notification m s)"
    using c(1) c(2) c(3) assms(2)
    by (simp add: toast_ok_def armed_def visible_def show_notification_def commit_deps
          commit_ui set_notification s'_def)
qed

lemma show_same:
  assumes "toast_ok s" and "notification (ui s) = Some m"
  shows "timers (show_notification m s) = timers s"
    and "notification (ui (show_notification m s)) = Some m"
    and "now (show_notification m s) = now s"
proof -
  define s' where "s' = run_segment ([SetNotification (Some m)], Returned) s"
  have d: "notificationDeps s' = Some (notification (ui s'))"
    using assms by (simp add: s'_def toast_ok_def rest_run_segment set_notification)
  show "timers (show_notification m s) = timers s"
    using commit_toast_same(1) [OF d]
    by (simp add: show_notification_def s'_def rest_run_segment)
  show "notification (ui (show_notification m s)) = Some m"
    by (simp add: show_notification_def commit_ui set_notification)
  show "now (show_notification m s) = now s"
    by (simp add: show_notification_def commit_deps rest_run_segment)
qed

lemma elapse_before:
  assumes "timers s = [(i, due)]" and "now s + dt < due"
  shows "elapse dt s = s\<lparr>now := now s + dt\<rparr>"
  using assms by (simp add: elapse_def Let_def)

lemma elapse_expire:
  assumes "toast_ok s" and "timers s = [(i, due)]" and "due \<le> now s + dt"
  shows "notification (ui (elapse dt s)) = None" and "timers (elapse dt s) = []"
proof -
  define s' where "s' = s\<lparr>now := now s + dt, timers := [],
                          ui := perform (SetNotification None) (ui s)\<rparr>"
  have e: "elapse dt s = commit s'"
    using assms(2) assms(3) by (simp add: elapse_def Let_def s'_def)
  have d: "notificationDeps s' = Some (notification (ui s))" "timers s' = []"
    "notification (ui s') = None"
    using assms(1) by (simp_all add: s'_def toast_ok_def)
  show "notification (ui (elapse dt s)) = None"
    by (simp add: e commit_ui d)
  show "timers (elapse dt s) = []"
    unfolding e by (rule commit_toast_hide(1) [OF d])
qed

section \<open>The toast at the first render\<close>

lemma toast_ok_now: "toast_ok (s\<lparr>now := t\<rparr>) = toast_ok s"
  by (simp add: toast_ok_def armed_def)

lemma mounted_toast_ok: "toast_ok mounted"
  by (simp add: toast_ok_def armed_def visible_def mounted_fields mounted_timers)

section \<open>The toast in every reachable state\<close>

text \<open>What a render does to the toast when the handler before it left the timers alone.\<close>

lemma commit_toast_ok:
  assumes ok: "toast_ok s"
    and same: "notificationDeps s' = notificationDeps s" "timers s' = timers s"
      "cleanup s' = cleanup s" "nextTimer s' = nextTimer s" "now s' = now s"
    and n: "notification (ui s') = notification (ui s) \<or>
            (\<exists>m. m \<noteq> [] \<and> notification (ui s') = Some m)"
  shows "toast_ok (commit s')"
    and "timers (commit s') =
           (if notification (ui s') = notification (ui s) then timers s
            else [(nextTimer s, now s + 3000)])"
proof -
  have d: "notificationDeps s' = Some (notification (ui s))"
    and a: "armed (notification (ui s)) s'"
    using ok same by (simp_all add: toast_ok_def armed_def)
  show "toast_ok (commit s')"
  proof (cases "notification (ui s') = notification (ui s)")
    case True
    then show ?thesis
      using d a commit_toast_same [of s']
      by (simp add: toast_ok_def armed_def commit_deps commit_ui)
  next
    case False
    then obtain m where m: "m \<noteq> []" "notification (ui s') = Some m"
      using n by blast
    have neq: "notification (ui s) \<noteq> Some m" using False m by simp
    note c = commit_toast_show [OF d a m(2) m(1) neq]
    show ?thesis
      using c m by (simp add: toast_ok_def armed_def visible_def commit_deps commit_ui)
  qed
  show "timers (commit s') =
           (if notification (ui s') = notification (ui s) then timers s
            else [(nextTimer s, now s + 3000)])"
  proof (cases "notification (ui s') = notification (ui s)")
    case True
    then show ?thesis
      using d commit_toast_same(1) [of s'] same by simp
  next
    case False
    then obtain m where m: "m \<noteq> []" "notification (ui s') = Some m"
      using n by blast
    have neq: "notification (ui s) \<noteq> Some m" using False m by simp
    show ?thesis
      using commit_toast_show(1) [OF d a m(2) m(1) neq] False same by simp
  qed
qed

lemma resume_notification:
  "notification (run_actions (fst (resume t reply)) st) = notification st \<or>
   (\<exists>m. m \<noteq> [] \<and> notification (run_actions (fst (resume t reply)) st) = Some m)"
proof (cases t)
  case LoadUpcomingTask
  then show ?thesis
    by (simp add: loadUpcomingResults_resume_def run_actions_Cons run_actions_Nil
          split: sum.splits)
next
  case LoadLatestTask
  then show ?thesis
    by (simp add: loadLatestResults_resume_def run_actions_Cons run_actions_Nil
          split: sum.splits)
next
  case (ProcessTask c k)
  then show ?thesis
    by (simp add: handleProcessResult_resume_def run_actions_Cons run_actions_Nil
          success_message_def error_message_def split: sum.splits analysis_result.splits)
next
  case (ChatTask q)
  then show ?thesis
    by (simp add: handleChatSubmit_resume_def run_actions_Cons run_actions_Nil
          split: sum.splits)
qed

lemma handle_toast:
  assumes "\<And>dt. e \<noteq> Elapse dt"
  shows "notificationDeps (handle e s) = notificationDeps s"
    and "timers (handle e s) = timers s"
    and "cleanup (handle e s) = cleanup s"
    and "nextTimer (handle e s) = nextTimer s"
    and "now (handle e s) = now s"
    and "notification (ui (handle e s)) = notification (ui s) \<or>
         (\<exists>m. m \<noteq> [] \<and> notification (ui (handle e s)) = Some m)"
proof -
  show "notificationDeps (handle e s) = notificationDeps s"
    and "timers (handle e s) = timers s"
    and "cleanup (handle e s) = cleanup s"
    and "nextTimer (handle e s) = nextTimer s"
    and "now (handle e s) = now s"
    using assms by (cases e; simp add: rest_run_segment)+
  show "notification (ui (handle e s)) = notification (ui s) \<or>
         (\<exists>m. m \<noteq> [] \<and> notification (ui (handle e s)) = Some m)"
  proof (cases e)
    case (Resolve t reply)
    then show ?thesis
      using resume_notification [of t reply "ui s"]
      by (cases "resume t reply") (simp add: run_segment_def)
  next
    case Submit
    then show ?thesis
      by (cases "trim (chatInput (ui s)) = []")
         (simp_all add: submit_blank submit_segment ui_run_segment run_actions_Cons
            run_actions_Nil)
  next
    case (Elapse dt)
    then show ?thesis using assms by simp
  qed (simp_all add: ui_run_segment run_actions_Cons run_actions_Nil handleProcessResult_def
         loadUpcomingResults_def loadLatestResults_def)
qed

lemma toast_ok_timers: "toast_ok s \<Longrightarrow> timers s = [] \<or> (\<exists>i due. timers s = [(i, due)])"
  by (cases "timers s") (auto simp: toast_ok_def armed_def split: if_splits)

lemma elapse_idle: "timers s = [] \<Longrightarrow> elapse dt s = s\<lparr>now := now s + dt\<rparr>"
  by (simp add: elapse_def Let_def)

lemma elapse_toast_ok:
  assumes "toast_ok s"
  shows "toast_ok (elapse dt s)"
proof -
  consider "timers s = []" | i due where "timers s = [(i, due)]" "now s + dt < due"
    | i due where "timers s = [(i, due)]" "due \<le> now s + dt"
    using toast_ok_timers [OF assms] by (metis not_le)
  then show ?thesis
  proof cases
    case 1
    then show ?thesis using assms by (simp add: elapse_idle toast_ok_now)
  next
    case 2
    then show ?thesis using assms by (simp add: elapse_before toast_ok_now)
  next
    case 3
    define s' where "s' = s\<lparr>now := now s + dt, timers := [],
                            ui := perform (SetNotification None) (ui s)\<rparr>"
    have e: "elapse dt s = commit s'"
      using 3 by (simp add: elapse_def Let_def s'_def)
    have d: "notificationDeps s' = Some (notification (ui s))" "timers s' = []"
      "notification (ui s') = None"
      using assms by (simp_all add: s'_def toast_ok_def)
    show ?thesis
      using commit_toast_hide(1) [OF d]
      by (simp add: e toast_ok_def armed_def visible_def commit_deps commit_ui d)
  qed
qed

lemma dispatch_toast_ok:
  assumes "toast_ok s"
  shows "toast_ok (dispatch e s)"
proof (cases "\<exists>dt. e = Elapse dt")
  case True
  then obtain dt where e: "e = Elapse dt" by blast
  have "toast_ok (commit (elapse dt s))"
    by (rule commit_toast_ok(1)
          [OF elapse_toast_ok [OF assms] refl refl refl refl refl disjI1 [OF refl]])
  then show ?thesis by (simp add: e dispatch_def)
next
  case False
  then have ne: "\<And>dt. e \<noteq> Elapse dt" by blast
  show ?thesis
    unfolding dispatch_def
    by (rule commit_toast_ok(1) [OF assms handle_toast [OF ne]])
qed

lemma run_toast_ok: "toast_ok s \<Longrightarrow> toast_ok (run es s)"
  by (induction es arbitrary: s) (simp_all add: run_Nil run_Cons dispatch_toast_ok)

text \<open>In every state the component reaches, at most one timeout is pending.\<close>

lemma reachable_single_timer: "length (timers (run es mounted)) \<le> 1"
  using toast_ok_timers [OF run_toast_ok [OF mounted_toast_ok, of es]] by auto

text \<open>
  The toast of the processing workflow is \<open>show\<close>: a success for the company whose
  success message is on display leaves the pending timeout as it is.
\<close>

lemma resolve_success_toast:
  assumes "toast_ok s" and "ProcessTask c k \<in> set (tasks s)"
    and "triggerResultProcessing c k reply = Inr (StatusSuccess d)"
  shows "notification (ui (dispatch (Resolve (ProcessTask c k) reply) s))
           = Some (success_message c)"
    and "timers (dispatch (Resolve (ProcessTask c k) reply) s) =
           (if notification (ui s) = Some (success_message c) then timers s
            else [(nextTimer s, now s + 3000)])"
    and "timers (dispatch (Resolve (ProcessTask c k) reply) s) =
           timers (show_notification (success_message c) s)"
proof -
  have ne: "\<And>dt. Resolve (ProcessTask c k) reply \<noteq> Elapse dt" by simp
  have n: "notification (ui (handle (Resolve (ProcessTask c k) reply) s))
             = Some (success_message c)"
    using assms(2) assms(3)
    by (simp add: handleProcessResult_resume_def run_segment_def run_actions_Cons
          run_actions_Nil)
  show "notification (ui (dispatch (Resolve (ProcessTask c k) reply) s))
           = Some (success_message c)"
    using n by (simp only: dispatch_def commit_ui)
  show t: "timers (dispatch (Resolve (ProcessTask c k) reply) s) =
           (if notification (ui s) = Some (success_message c) then timers s
            else [(nextTimer s, now s + 3000)])"
    using commit_toast_ok(2) [OF assms(1) handle_toast [OF ne]] n
    by (simp only: dispatch_def) auto
  have m: "success_message c \<noteq> []" by (simp add: success_message_def)
  show "timers (dispatch (Resolve (ProcessTask c k) reply) s) =
           timers (show_notification (success_message c) s)"
    using show_fresh(2) [OF assms(1) m] show_same(1) [OF assms(1)] t by auto
qed

section \<open>Replacing a toast\<close>

lemma show_toast_ok:
  assumes "toast_ok s" and "m \<noteq> []"
  shows "toast_ok (show_notification m s)"
  unfolding show_notification_def
proof (rule commit_toast_ok(1) [OF assms(1)])
  show "notification (ui (run_segment ([SetNotification (Some m)], Returned) s))
          = notification (ui s) \<or>
        (\<exists>m'. m' \<noteq> [] \<and>
           notification (ui (run_segment ([SetNotification (Some m)], Returned) s)) = Some m')"
    using assms(2) by (simp add: set_notification)
qed (simp_all add: rest_run_segment)

lemma displayed_timer:
  assumes "toast_ok s" and "notification (ui s) = Some a" and "a \<noteq> []"
  shows "\<exists>i due. timers s = [(i, due)] \<and> i < nextTimer s"
proof -
  have "length (timers s) = 1" and "fst (hd (timers s)) < nextTimer s"
    using assms by (simp_all add: toast_ok_def armed_def visible_def)
  then show ?thesis
    by (cases "timers s") auto
qed

text \<open>The messages that the processing workflow shows are not empty.\<close>

lemma toast_messages_nonempty:
  "success_message company \<noteq> []" "error_message company err \<noteq> []"
  by (simp_all add: success_message_def error_message_def)

text \<open>
  Claim C7, amended. In a state where the toast is in order (every state the component
  reaches is, see \<open>run_toast_ok\<close>), let a message \<open>a\<close> be shown and then, while
  \<open>a\<close> is still on display, a message \<open>b\<close>, neither of them the empty string. Afterwards \<open>b\<close> is the one message
  visible and one timeout is pending. When \<open>b\<close> differs from \<open>a\<close>, the timeout
  that was pending is gone, the pending one is new and due 3000 ms after the second
  call, the toast stays until then, and on expiry the slot is empty and no timeout is
  pending. When \<open>b\<close> is \<open>a\<close>, the pending timeout is left as it is: it is neither
  cancelled nor started again.
\<close>

theorem toast_replace:
  assumes "toast_ok s" and "a \<noteq> []" and "b \<noteq> []"
    and "notification (ui (elapse dt (show_notification a s))) = Some a"
  shows "let s1 = elapse dt (show_notification a s); s2 = show_notification b s1
         in notification (ui s2) = Some b \<and>
            length (timers s1) = 1 \<and> length (timers s2) = 1 \<and>
            (a \<noteq> b \<longrightarrow>
               timers s2 = [(nextTimer s1, now s1 + 3000)] \<and>
               set (timers s1) \<inter> set (timers s2) = {} \<and>
               (\<forall>d < 3000. notification (ui (elapse d s2)) = Some b) \<and>
               notification (ui (elapse 3000 s2)) = None \<and>
               timers (elapse 3000 s2) = []) \<and>
            (a = b \<longrightarrow> timers s2 = timers s1)"
proof -
  define s1 where "s1 = elapse dt (show_notification a s)"
  define s2 where "s2 = show_notification b s1"
  have ok1: "toast_ok s1"
    unfolding s1_def by (rule elapse_toast_ok [OF show_toast_ok [OF assms(1) assms(2)]])
  have n1: "notification (ui s1) = Some a"
    unfolding s1_def by (rule assms(4))
  obtain i due where t1: "timers s1 = [(i, due)]" and i: "i < nextTimer s1"
    using displayed_timer [OF ok1 n1 assms(2)] by blast
  have ok2: "toast_ok s2"
    unfolding s2_def by (rule show_toast_ok [OF ok1 assms(3)])
  have shown: "notification (ui s2) = Some b"
    by (simp add: s2_def show_notification_def commit_ui set_notification)
  have one: "length (timers s2) = 1"
    using displayed_timer [OF ok2 shown assms(3)] by auto
  have fresh: "timers s2 = [(nextTimer s1, now s1 + 3000)] \<and>
      set (timers s1) \<inter> set (timers s2) = {} \<and>
      (\<forall>d < 3000. notification (ui (elapse d s2)) = Some b) \<and>
      notification (ui (elapse 3000 s2)) = None \<and>
      timers (elapse 3000 s2) = []"
    if "a \<noteq> b"
  proof -
    have neq: "notification (ui s1) \<noteq> Some b"
      using n1 that by simp
    note f = show_fresh [OF ok1 assms(3) neq, folded s2_def]
    have t2: "timers s2 = [(nextTimer s1, now s2 + 3000)]"
      using f(2) f(4) by simp
    have before: "notification (ui (elapse d s2)) = Some b" if "d < 3000" for d
    proof -
      have "elapse d s2 = s2\<lparr>now := now s2 + d\<rparr>"
      proof (rule elapse_before)
        show "timers s2 = [(nextTimer s1, now s2 + 3000)]" by (rule t2)
        show "now s2 + d < now s2 + 3000" using that by arith
      qed
      then show ?thesis using f(1) by simp
    qed
    have after: "notification (ui (elapse 3000 s2)) = None" "timers (elapse 3000 s2) = []"
      using elapse_expire [OF f(5) t2, of 3000] by simp_all
    show ?thesis
      using f(2) t1 i before after by simp
  qed
  have same: "timers s2 = timers s1" if "a = b"
    using show_same(1) [OF ok1 n1] that by (simp add: s2_def)
  have l1: "length (timers s1) = 1"
    using t1 by simp
  have d: "a \<noteq> b \<longrightarrow>
      timers s2 = [(nextTimer s1, now s1 + 3000)] \<and>
      set (timers s1) \<inter> set (timers s2) = {} \<and>
      (\<forall>d < 3000. notification (ui (elapse d s2)) = Some b) \<and>
      notification (ui (elapse 3000 s2)) = None \<and>
      timers (elapse 3000 s2) = []"
    using fresh by blast
  have e: "a = b \<longrightarrow> timers s2 = timers s1"
    using same by blast
  have "notification (ui s2) = Some b \<and>
      length (timers s1) = 1 \<and> length (timers s2) = 1 \<and>
      (a \<noteq> b \<longrightarrow>
         timers s2 = [(nextTimer s1, now s1 + 3000)] \<and>
         set (timers s1) \<inter> set (timers s2) = {} \<and>
         (\<forall>d < 3000. notification (ui (elapse d s2)) = Some b) \<and>
         notification (ui (elapse 3000 s2)) = None \<and>
         timers (elapse 3000 s2) = []) \<and>
      (a = b \<longrightarrow> timers s2 = timers s1)"
    using shown l1 one d e by (intro conjI)
  then show ?thesis
    unfolding Let_def s1_def s2_def .
qed

theorem toast_replace_witness:
  "toast_ok mounted \<and>
   success_message (utf16 ''Wipro'') \<noteq> [] \<and>
   error_message (utf16 ''TCS'') (utf16 ''timeout'') \<noteq> [] \<and>
   success_message (utf16 ''Wipro'') \<noteq> error_message (utf16 ''TCS'') (utf16 ''timeout'') \<and>
   notification (ui (elapse 1000 (show_notification (success_message (utf16 ''Wipro'')) mounted)))
     = Some (success_message (utf16 ''Wipro'')) \<and>
   timers (elapse 1000 (show_notification (success_message (utf16 ''Wipro'')) mounted))
     = [(0, 3000)] \<and>
   timers (show_notification (error_message (utf16 ''TCS'') (utf16 ''timeout''))
            (elapse 1000 (show_notification (success_message (utf16 ''Wipro'')) mounted)))
     = [(1, 4000)] \<and>
   timers (show_notification (success_message (utf16 ''Wipro''))
            (elapse 1000 (show_notification (success_message (utf16 ''Wipro'')) mounted)))
     = [(0, 3000)]"
proof -
  define a where "a = success_message (utf16 ''Wipro'')"
  define b where "b = error_message (utf16 ''TCS'') (utf16 ''timeout'')"
  define s0 where "s0 = show_notification a mounted"
  define s1 where "s1 = elapse 1000 s0"
  have ne: "a \<noteq> []" "b \<noteq> []" "a \<noteq> b"
    by (simp_all add: a_def b_def success_message_def error_message_def)
  have n: "notification (ui mounted) \<noteq> Some a"
    by (simp add: mounted_fields)
  note f0 = show_fresh [OF mounted_toast_ok ne(1) n, folded s0_def]
  have t0: "timers s0 = [(0, 3000)]" "now s0 = 0" "nextTimer s0 = 1"
    using f0 by (simp_all add: mounted_fields mounted_timers)
  have e1: "s1 = s0\<lparr>now := 1000\<rparr>"
    unfolding s1_def using elapse_before [of s0 0 3000 1000] t0 by simp
  have n1: "notification (ui s1) = Some a" and t1: "timers s1 = [(0, 3000)]"
    and x1: "nextTimer s1 = 1" "now s1 = 1000"
    using f0 t0 by (simp_all add: e1)
  from toast_replace [OF mounted_toast_ok ne(1) ne(2), of 1000]
    toast_replace [OF mounted_toast_ok ne(1) ne(1), of 1000]
  show ?thesis
    using ne n1 t1 x1 mounted_toast_ok
    by (simp add: Let_def a_def [symmetric] b_def [symmetric] s0_def [symmetric]
          s1_def [symmetric])
qed

text \<open>
  Claim C7 as stated fails when the two messages are equal. The effect depends on the
  value of the notification, so showing the message that is on display runs neither the
  cleanup nor the effect: the first timeout stays pending, no countdown is started, and
  the toast disappears 2000 ms after the second call.
\<close>

theorem toast_same_message_not_restarted:
  "let a = success_message (utf16 ''Wipro'');
       s2 = show_notification a (elapse 1000 (show_notification a mounted))
   in notification (ui s2) = Some a \<and> now s2 = 1000 \<and> timers s2 = [(0, 3000)] \<and>
      timers s2 \<noteq> [(1, now s2 + 3000)] \<and>
      notification (ui (elapse 2000 s2)) = None"
proof -
  define a where "a = success_message (utf16 ''Wipro'')"
  define s0 where "s0 = show_notification a mounted"
  define s1 where "s1 = elapse 1000 s0"
  define s2 where "s2 = show_notification a s1"
  have ne: "a \<noteq> []" by (simp add: a_def success_message_def)
  have n: "notification (ui mounted) \<noteq> Some a" by (simp add: mounted_fields)
  note f0 = show_fresh [OF mounted_toast_ok ne n, folded s0_def]
  have t0: "timers s0 = [(0, 3000)]" "now s0 = 0"
    using f0 by (simp_all add: mounted_fields mounted_timers)
  have e1: "s1 = s0\<lparr>now := 1000\<rparr>"
    unfolding s1_def using elapse_before [of s0 0 3000 1000] t0 by simp
  have ok1: "toast_ok s1" and n1: "notification (ui s1) = Some a"
    and t1: "timers s1 = [(0, 3000)]" and c1: "now s1 = 1000"
    using f0 t0 by (simp_all add: e1 toast_ok_now)
  note g = show_same [OF ok1 n1, folded s2_def]
  have t2: "timers s2 = [(0, 3000)]" and c2: "now s2 = 1000"
    using g t1 c1 by simp_all
  have d2: "notificationDeps s2 = Some (notification (ui s2))"
    by (simp add: s2_def show_notification_def commit_deps commit_ui)
  have ok2: "toast_ok s2"
  proof -
    have "cleanup s2 = cleanup s1" "nextTimer s2 = nextTimer s1"
      using ok1 n1
      by (simp_all add: s2_def show_notification_def toast_ok_def commit_toast_same
            rest_run_segment set_notification)
    then show ?thesis
      using ok1 n1 t1 t2 d2 g(2) ne by (simp add: toast_ok_def armed_def visible_def)
  qed
  have "notification (ui (elapse 2000 s2)) = None"
    using elapse_expire(1) [OF ok2 t2, of 2000] c2 by simp
  then show ?thesis
    using g(2) t2 c2
    by (simp add: Let_def a_def [symmetric] s0_def [symmetric] s1_def [symmetric]
          s2_def [symmetric])
qed

end
